theory Spec2Isabelle
  imports Main "HOL-Library.Word"
begin

section \<open>Errors and their classification\<close>

text \<open>
  A Go \<open>error\<close> value is either \<open>nil\<close> or an error: \<open>error option\<close>, with \<open>None\<close>
  for \<open>nil\<close>. An error of the runtime comes in one of two shapes. A call of the gRPC
  service fails with a status error, which carries a status code. The methods of the
  containerd client hand that error on after \<open>errdefs.FromGRPC\<close> has turned it into
  an error of an errdefs class; such an error no longer carries a status code. The
  error of a wait event is the status error itself. Every other error (one made by
  \<open>errors.New\<close>, one of the service directory or of the network) is a plain error.
  Of the codes and classes only those that this program asks for are kept apart.
\<close>

datatype code = Unavailable | NotFound | OtherCode

datatype errclass = ErrUnavailable | ErrNotFound | ErrOther

datatype error = Status code string | Errdefs errclass string | Plain string

text \<open>The two errors the file declares with \<open>errors.New\<close>.\<close>

definition errIDRequired :: error where
  "errIDRequired = Plain ''container id is required''"

definition errUnableToSignal :: error where
  "errUnableToSignal = Plain ''unable to signal task''"

text \<open>
  \<open>errdefs.FromGRPC\<close>: \<open>nil\<close> stays \<open>nil\<close>; any other error becomes an error of the
  class of its status code, and an error that is no status error has the code
  \<open>Unknown\<close>, so it lands in a class other than unavailable and not-found, also when
  it already was an errdefs error of one of these two classes.
\<close>

fun status_code :: "error \<Rightarrow> code" where
  "status_code (Status c m) = c"
| "status_code (Errdefs k m) = OtherCode"
| "status_code (Plain m) = OtherCode"

fun class_of :: "code \<Rightarrow> errclass" where
  "class_of Unavailable = ErrUnavailable"
| "class_of NotFound = ErrNotFound"
| "class_of OtherCode = ErrOther"

fun message :: "error \<Rightarrow> string" where
  "message (Status c m) = m"
| "message (Errdefs k m) = m"
| "message (Plain m) = m"

fun FromGRPC :: "error option \<Rightarrow> error option" where
  "FromGRPC None = None"
| "FromGRPC (Some err) = Some (Errdefs (class_of (status_code err)) (message err))"

text \<open>\<open>errdefs.IsUnavailable\<close> and \<open>errdefs.IsNotFound\<close> hold of the errors of their class.\<close>

fun IsUnavailable :: "error option \<Rightarrow> bool" where
  "IsUnavailable (Some (Errdefs k m)) = (k = ErrUnavailable)"
| "IsUnavailable err = False"

fun IsNotFound :: "error option \<Rightarrow> bool" where
  "IsNotFound (Some (Errdefs k m)) = (k = ErrNotFound)"
| "IsNotFound err = False"

text \<open>\<open>isUnavailable(err)\<close> is \<open>errdefs.IsUnavailable(errdefs.FromGRPC(err))\<close>.\<close>

definition isUnavailable :: "error option \<Rightarrow> bool" where
  "isUnavailable err = IsUnavailable (FromGRPC err)"

section \<open>The runtime daemon as seen by the start hook\<close>

text \<open>
  \<open>containerd.ExitStatus\<close>: the exit code (a \<open>uint32\<close>) and the error of the wait.
\<close>

record ExitStatus =
  exit_code :: "32 word"
  exit_error :: "error option"

type_synonym signal = nat

text \<open>
  \<open>config.Container\<close>, as far as \<open>setupNetworking\<close> reads it: the network's name and
  the names of the services, in the order in which the run iterates over the map.
\<close>

record Container =
  Network :: string
  Services :: "string list"

text \<open>
  What the collaborators answer. A call that the hook may make several times is
  answered by its index: \<open>kill_res e k\<close> is the result of the \<open>k\<close>-th call of
  \<open>task.Kill\<close>. A successful \<open>task.Wait\<close> answers with the status that its channel
  will deliver.
\<close>

record env =
  load_res :: "error option"
  info_res :: "error option"
  unmarshal_res :: "error + Container"
  newtask_res :: "error option"
  create_res :: "error + string"
  register_res :: "nat \<Rightarrow> error option"
  wait_res :: "nat \<Rightarrow> error + ExitStatus"
  start_res :: "error option"
  disable_res :: "error option"
  kill_res :: "nat \<Rightarrow> error option"
  reconnect_res :: "nat \<Rightarrow> error option"
  delete_res :: "error option"

text \<open>
  Everything the hook does to the outside, in the order in which it does it. A call of
  \<open>task.Wait\<close> is recorded with the error it returned (\<open>None\<close>: a subscription
  was registered), the receipt from \<open>started\<close> with the error of \<open>task.Start\<close>.
\<close>

datatype action =
    CallLoadContainer string
  | CallInfo
  | CallNewTask
  | CallCreate
  | CallRegister string
  | CallWait "error option"
  | GoStart
  | RecvStarted "error option"
  | CallDisableMaintainance
  | RecvSignal signal
  | CallKill signal
  | Sleep nat
  | CallReconnect
  | RecvWait
  | CallDelete
  | LogDebug string
  | LogError string error
  | OsExit int

record world =
  n_register :: nat
  n_wait :: nat
  n_kill :: nat
  n_reconnect :: nat
  trace :: "action list"

definition world0 :: world where
  "world0 = \<lparr>n_register = 0, n_wait = 0, n_kill = 0, n_reconnect = 0, trace = []\<rparr>"

definition emit :: "action \<Rightarrow> world \<Rightarrow> world" where
  "emit a w = w\<lparr>trace := trace w @ [a]\<rparr>"

definition task_Wait :: "env \<Rightarrow> world \<Rightarrow> (error + ExitStatus) \<times> world" where
  "task_Wait e w =
     (wait_res e (n_wait w),
      emit (CallWait (case wait_res e (n_wait w) of Inl x \<Rightarrow> Some x | Inr ch \<Rightarrow> None))
        (w\<lparr>n_wait := n_wait w + 1\<rparr>))"

definition task_Kill :: "env \<Rightarrow> signal \<Rightarrow> world \<Rightarrow> error option \<times> world" where
  "task_Kill e s w = (kill_res e (n_kill w), emit (CallKill s) (w\<lparr>n_kill := n_kill w + 1\<rparr>))"

definition client_Reconnect :: "env \<Rightarrow> world \<Rightarrow> error option \<times> world" where
  "client_Reconnect e w =
     (reconnect_res e (n_reconnect w), emit CallReconnect (w\<lparr>n_reconnect := n_reconnect w + 1\<rparr>))"

definition task_Delete :: "env \<Rightarrow> world \<Rightarrow> error option \<times> world" where
  "task_Delete e w = (delete_res e, emit CallDelete w)"

definition DisableMaintainance :: "env \<Rightarrow> world \<Rightarrow> error option \<times> world" where
  "DisableMaintainance e w = (disable_res e, emit CallDisableMaintainance w)"

definition Register :: "env \<Rightarrow> string \<Rightarrow> world \<Rightarrow> error option \<times> world" where
  "Register e name w =
     (register_res e (n_register w), emit (CallRegister name) (w\<lparr>n_register := n_register w + 1\<rparr>))"

section \<open>Reconnection\<close>

text \<open>
  \<open>reconnect\<close>: the loop \<open>for i := 0; i < 20; i++\<close> with the named result \<open>err\<close>,
  which is \<open>nil\<close> on entry. Each round sleeps 100 ms and then calls
  \<open>client.Reconnect\<close>.
\<close>

function reconnect_loop :: "env \<Rightarrow> nat \<Rightarrow> error option \<Rightarrow> world \<Rightarrow> error option \<times> world" where
  "reconnect_loop e i err w =
     (if i < 20 then
        (case client_Reconnect e (emit (Sleep 100) w) of
           (None, w') \<Rightarrow> (None, w')
         | (Some x, w') \<Rightarrow> reconnect_loop e (i + 1) (Some x) w')
      else (err, w))"
  by pat_completeness auto
termination
  by (relation "measure (\<lambda>(e, i, err, w). 20 - i)") auto

declare reconnect_loop.simps [simp del]

definition reconnect :: "env \<Rightarrow> world \<Rightarrow> error option \<times> world" where
  "reconnect e w = reconnect_loop e 0 None w"

section \<open>Signal relay\<close>

text \<open>
  \<open>trySendSignal\<close>: the loop \<open>for i := 0; i < 5; i++\<close>. The signal is one that
  \<open>os/signal\<close> delivered, so the type assertion \<open>s.(syscall.Signal)\<close> holds.
\<close>

function trySendSignal_loop :: "env \<Rightarrow> signal \<Rightarrow> nat \<Rightarrow> world \<Rightarrow> error option \<times> world" where
  "trySendSignal_loop e s i w =
     (if i < 5 then
        (case task_Kill e s w of
           (None, w1) \<Rightarrow> (None, w1)
         | (Some x, w1) \<Rightarrow>
             (if \<not> isUnavailable (Some x) then (Some x, w1)
              else (case reconnect e w1 of
                      (Some y, w2) \<Rightarrow> (Some y, w2)
                    | (None, w2) \<Rightarrow> trySendSignal_loop e s (i + 1) w2)))
      else (Some errUnableToSignal, w))"
  by pat_completeness auto
termination
  by (relation "measure (\<lambda>(e, s, i, w). 5 - i)") auto

declare trySendSignal_loop.simps [simp del]

definition trySendSignal :: "env \<Rightarrow> signal \<Rightarrow> world \<Rightarrow> error option \<times> world" where
  "trySendSignal e s w = trySendSignal_loop e s 0 w"

section \<open>The supervisor loop\<close>

text \<open>
  The \<open>select\<close> of \<open>monitorTask\<close> receives from one of three channels. Which one, and
  which signal arrives, is the scheduler's choice; a run is driven by the list of these
  choices. A choice of a channel that holds nothing is no event: the \<open>select\<close> keeps
  waiting. When the choices are used up the \<open>select\<close> blocks for ever, and the loop
  has no result (\<open>None\<close>).

  The variables of \<open>monitorTask\<close> that the loop reads are its arguments: \<open>err\<close> is the
  function's own \<open>err\<close> (declared by \<open>wait, err := task.Wait(ctx)\<close>), \<open>wait\<close> the
  status the current wait channel will deliver (\<open>None\<close> once it has been received),
  \<open>started\<close> the content of the buffered channel \<open>started\<close>. The \<open>err\<close> of
  \<open>case err := <-started\<close> and those of the \<open>if err := ...\<close> statements are new
  variables of their own blocks; only \<open>wait, err = task.Wait(ctx)\<close> inside the loop
  assigns the function's \<open>err\<close>.
\<close>

datatype choice = SelStarted | SelSignal signal | SelWait

text \<open>The body of \<open>case s := <-signals\<close>: relay the signal, log a failure.\<close>

definition on_signal :: "env \<Rightarrow> signal \<Rightarrow> world \<Rightarrow> world" where
  "on_signal e s w =
     (case trySendSignal e s (emit (RecvSignal s) w) of
        (None, w1) \<Rightarrow> w1
      | (Some serr, w1) \<Rightarrow> emit (LogError ''signal task'' serr) w1)"

fun loop :: "env \<Rightarrow> choice list \<Rightarrow> error option \<Rightarrow> ExitStatus option \<Rightarrow> error option option
    \<Rightarrow> world \<Rightarrow> (int \<times> error option) option \<times> world" where
  "loop e [] err wait started w = (None, w)"
| "loop e (SelStarted # cs) err wait started w =
     (case started of
        None \<Rightarrow> loop e cs err wait started w
      | Some (Some serr) \<Rightarrow> (Some (- 1, Some serr), emit (RecvStarted (Some serr)) w)
      | Some None \<Rightarrow>
          (case DisableMaintainance e (emit (RecvStarted None) w) of
             (None, w1) \<Rightarrow> loop e cs err wait None w1
           | (Some derr, w1) \<Rightarrow>
               loop e cs err wait None (emit (LogError ''disable service maintenance'' derr) w1)))"
| "loop e (SelSignal s # cs) err wait started w = loop e cs err wait started (on_signal e s w)"
| "loop e (SelWait # cs) err wait started w =
     (case wait of
        None \<Rightarrow> loop e cs err wait started w
      | Some exit \<Rightarrow>
          (if exit_error exit \<noteq> None then
             (if \<not> isUnavailable err then (Some (- 1, err), emit RecvWait w)
              else
                (case reconnect e (emit RecvWait w) of
                   (Some rerr, w1) \<Rightarrow> (Some (- 1, Some rerr), w1)
                 | (None, w1) \<Rightarrow>
                     (case task_Wait e w1 of
                        (Inl werr, w2) \<Rightarrow> (Some (- 1, Some werr), w2)
                      | (Inr ch, w2) \<Rightarrow> loop e cs None (Some ch) started w2)))
           else (Some (uint (exit_code exit), None), emit RecvWait w)))"

text \<open>
  \<open>monitorTask\<close>. The deferred \<open>task.Delete(ctx, containerd.WithProcessKill)\<close> runs
  when the function returns; its results are dropped. A run that blocks for ever
  never returns. The goroutine that calls \<open>task.Start\<close> is launched once the first
  \<open>task.Wait\<close> has succeeded; its result is in the channel \<open>started\<close> from then on,
  for the loop to receive when the scheduler chooses. The status of a normal exit is
  \<open>int(exit.ExitCode())\<close>, the unsigned value of the \<open>uint32\<close> code (an \<open>int\<close> has
  64 bits).
\<close>

definition monitorTask :: "env \<Rightarrow> choice list \<Rightarrow> world \<Rightarrow> (int \<times> error option) option \<times> world" where
  "monitorTask e sched w =
     (case task_Wait e w of
        (Inl werr, w1) \<Rightarrow> (Some (- 1, Some werr), snd (task_Delete e w1))
      | (Inr ch, w1) \<Rightarrow>
          (case loop e sched None (Some ch) (Some (start_res e)) (emit GoStart w1) of
             (None, w2) \<Rightarrow> (None, w2)
           | (Some res, w2) \<Rightarrow> (Some res, snd (task_Delete e w2))))"

section \<open>The start hook\<close>

text \<open>\<open>setupNetworking\<close>: the loop over \<open>c.Services\<close> logs a failed registration and goes on.\<close>

fun register_all :: "env \<Rightarrow> string list \<Rightarrow> world \<Rightarrow> world" where
  "register_all e [] w = w"
| "register_all e (name # names) w =
     (case Register e name w of
        (None, w1) \<Rightarrow> register_all e names w1
      | (Some rerr, w1) \<Rightarrow> register_all e names (emit (LogError ''register service'' rerr) w1))"

definition setupNetworking :: "env \<Rightarrow> Container \<Rightarrow> world \<Rightarrow> error option \<times> world" where
  "setupNetworking e c w =
     (case create_res e of
        Inl cerr \<Rightarrow> (Some cerr, emit CallCreate w)
      | Inr ip \<Rightarrow>
          (if ip \<noteq> [] then
             (None, register_all e (Services c) (emit (LogDebug ''setup network interface'') (emit CallCreate w)))
           else (None, emit CallCreate w)))"

text \<open>
  \<open>getConfig\<close>: \<open>container.Info\<close> may fail, and so may the decoding of the
  extension; the decoded value is a \<open>*config.Container\<close>.
\<close>

definition getConfig :: "env \<Rightarrow> world \<Rightarrow> (error + Container) \<times> world" where
  "getConfig e w =
     (case info_res e of
        Some ierr \<Rightarrow> (Inl ierr, emit CallInfo w)
      | None \<Rightarrow> (unmarshal_res e, emit CallInfo w))"

text \<open>
  The action of \<open>exec-start\<close>. It returns an error to the command-line library, or
  ends the process with \<open>os.Exit(status)\<close>, or never returns.
\<close>

datatype hook_outcome = Returned "error option" | Exited int | Blocked

definition systemdExecStart :: "env \<Rightarrow> choice list \<Rightarrow> string \<Rightarrow> hook_outcome \<times> world" where
  "systemdExecStart e sched ident =
     (let w0 = emit (CallLoadContainer ident) world0 in
      case load_res e of
        Some lerr \<Rightarrow> (Returned (Some lerr), w0)
      | None \<Rightarrow>
          (case getConfig e w0 of
             (Inl gerr, w1) \<Rightarrow> (Returned (Some gerr), w1)
           | (Inr config, w1) \<Rightarrow>
               (case newtask_res e of
                  Some nerr \<Rightarrow> (Returned (Some nerr), emit CallNewTask w1)
                | None \<Rightarrow>
                    (case setupNetworking e config (emit CallNewTask w1) of
                       (Some serr, w2) \<Rightarrow> (Returned (Some serr), snd (task_Delete e w2))
                     | (None, w2) \<Rightarrow>
                         (case monitorTask e sched w2 of
                            (None, w3) \<Rightarrow> (Blocked, w3)
                          | (Some (status, Some merr), w3) \<Rightarrow> (Returned (Some merr), w3)
                          | (Some (status, None), w3) \<Rightarrow> (Exited status, emit (OsExit status) w3))))))"

section \<open>Cleanup and the post-start hook\<close>

text \<open>
  \<open>cleanupPreviousTask\<close> and the action of \<open>exec-start-post\<close> run against the daemon
  and the service directory in whatever condition they are: \<open>'w\<close> is that condition,
  and the collaborators are functions of it. The two lookups read it; \<open>Delete\<close> and
  \<open>EnableMaintainance\<close> may change it.
\<close>

record 'w runtime =
  LoadContainer :: "'w \<Rightarrow> string \<Rightarrow> error + string"
  Task :: "'w \<Rightarrow> string \<Rightarrow> error + string"
  Delete :: "'w \<Rightarrow> string \<Rightarrow> error option \<times> 'w"
  EnableMaintainance :: "'w \<Rightarrow> string \<Rightarrow> string \<Rightarrow> error option \<times> 'w"

definition cleanupPreviousTask :: "'w runtime \<Rightarrow> 'w \<Rightarrow> string \<Rightarrow> error option \<times> 'w" where
  "cleanupPreviousTask rt w ident =
     (case LoadContainer rt w ident of
        Inl err \<Rightarrow> (Some err, w)
      | Inr container \<Rightarrow>
          (case Task rt w container of
             Inl err \<Rightarrow> (if IsNotFound (Some err) then (None, w) else (Some err, w))
           | Inr task \<Rightarrow> Delete rt w task))"

definition systemdExecStartPost :: "'w runtime \<Rightarrow> 'w \<Rightarrow> string \<Rightarrow> error option \<times> 'w" where
  "systemdExecStartPost rt w ident =
     (case cleanupPreviousTask rt w ident of
        (err, w1) \<Rightarrow>
          (case EnableMaintainance rt w1 ident ''task exited'' of
             (merr, w2) \<Rightarrow> (if err = None then (merr, w2) else (err, w2))))"

section \<open>Notions used to state the properties\<close>

text \<open>\<open>k\<close> rounds of \<open>reconnect\<close>, and the world after them.\<close>

definition rounds :: "nat \<Rightarrow> action list" where
  "rounds k = concat (replicate k [Sleep 100, CallReconnect])"

definition after_rounds :: "nat \<Rightarrow> world \<Rightarrow> world" where
  "after_rounds k w = w\<lparr>n_reconnect := n_reconnect w + k, trace := trace w @ rounds k\<rparr>"

text \<open>
  What the loop returns, read off the scheduler's choices and the channels alone:
  a failed start gives \<open>(-1, err)\<close>, a wait event with an error \<open>(-1, nil)\<close>, a
  wait event without one the exit code.
\<close>

fun loop_result :: "choice list \<Rightarrow> ExitStatus option \<Rightarrow> error option option
    \<Rightarrow> (int \<times> error option) option" where
  "loop_result [] wait started = None"
| "loop_result (SelStarted # cs) wait started =
     (case started of
        None \<Rightarrow> loop_result cs wait started
      | Some (Some serr) \<Rightarrow> Some (- 1, Some serr)
      | Some None \<Rightarrow> loop_result cs wait None)"
| "loop_result (SelSignal s # cs) wait started = loop_result cs wait started"
| "loop_result (SelWait # cs) wait started =
     (case wait of
        None \<Rightarrow> loop_result cs wait started
      | Some exit \<Rightarrow>
          (if exit_error exit \<noteq> None then Some (- 1, None)
           else Some (uint (exit_code exit), None)))"

text \<open>
  The number of live wait subscriptions of \<open>monitorTask\<close> after a trace: those its
  calls of \<open>task.Wait\<close> registered less those that have delivered their event.
\<close>

definition live :: "action list \<Rightarrow> int" where
  "live tr = int (count_list tr (CallWait None)) - int (count_list tr RecvWait)"

text \<open>An action that occurs in a trace at most once, and then as its last action.\<close>

definition only_last :: "action \<Rightarrow> action list \<Rightarrow> bool" where
  "only_last a tr \<longleftrightarrow> a \<notin> set tr \<or> (\<exists>pre. tr = pre @ [a] \<and> a \<notin> set pre)"

text \<open>
  A trace in which the health gate is cleared exactly once, right after the receipt of
  a start that succeeded, and in which a failure of the clearing is logged next.
\<close>

definition cleared_once :: "env \<Rightarrow> action list \<Rightarrow> bool" where
  "cleared_once e tr \<longleftrightarrow>
     (\<exists>pre post. tr = pre @ RecvStarted None # CallDisableMaintainance # post
        \<and> CallDisableMaintainance \<notin> set pre \<and> CallDisableMaintainance \<notin> set post
        \<and> (\<forall>x. disable_res e = Some x
              \<longrightarrow> (\<exists>post'. post = LogError ''disable service maintenance'' x # post')))"

text \<open>What one registration in \<open>setupNetworking\<close> leaves in the trace.\<close>

fun registrations :: "env \<Rightarrow> nat \<Rightarrow> string list \<Rightarrow> action list" where
  "registrations e k [] = []"
| "registrations e k (name # names) =
     CallRegister name
       # (case register_res e k of None \<Rightarrow> [] | Some rerr \<Rightarrow> [LogError ''register service'' rerr])
       @ registrations e (k + 1) names"

section \<open>Concrete collaborators\<close>

text \<open>
  A run in which every collaborator succeeds: the container \<open>web-1\<close> gets the address
  10.0.0.5, registers the service \<open>http\<close>, and its task exits with code 137.
\<close>

definition env_ok :: env where
  "env_ok = \<lparr>load_res = None, info_res = None,
     unmarshal_res = Inr \<lparr>Network = ''cni'', Services = [''http'']\<rparr>,
     newtask_res = None, create_res = Inr ''10.0.0.5'',
     register_res = (\<lambda>k. None),
     wait_res = (\<lambda>k. Inr \<lparr>exit_code = 137, exit_error = None\<rparr>),
     start_res = None, disable_res = None,
     kill_res = (\<lambda>k. None), reconnect_res = (\<lambda>k. None), delete_res = None\<rparr>"

text \<open>
  The errors of the concrete runs: the status error of a lost connection, as a wait
  event carries it, and the same condition as the client's \<open>task.Kill\<close> hands it
  on; the status error of a wait for a task that the daemon does not know; the error
  of the client for a container without a task; an error of another collaborator.
\<close>

definition unavailable :: error where
  "unavailable = Status Unavailable ''transport is closing''"


definition task_not_found :: error where
  "task_not_found = Status NotFound ''task not found''"

definition task_gone :: error where
  "task_gone = Errdefs ErrNotFound ''no running task found''"

definition refused :: error where
  "refused = Plain ''permission denied''"

text \<open>Runs in which one collaborator fails.\<close>

definition env_connection_lost :: env where
  "env_connection_lost =
     env_ok\<lparr>wait_res := (\<lambda>k. if k = 0 then Inr \<lparr>exit_code = 255, exit_error = Some unavailable\<rparr>
                              else Inr \<lparr>exit_code = 0, exit_error = None\<rparr>)\<rparr>"

definition env_create_fails :: env where
  "env_create_fails = env_ok\<lparr>create_res := Inl refused\<rparr>"

definition env_register_fails :: env where
  "env_register_fails = env_ok\<lparr>register_res := (\<lambda>k. Some refused)\<rparr>"

text \<open>
  A small daemon: the containers it knows, those that have a task, and the services
  in maintenance. \<open>EnableMaintainance\<close> answers with the given error.
\<close>

record daemon =
  containers :: "string list"
  tasks :: "string list"
  maintenance :: "string list"

definition rt_demo :: "error option \<Rightarrow> daemon runtime" where
  "rt_demo merr =
     \<lparr>LoadContainer = (\<lambda>w i. if i \<in> set (containers w) then Inr i
                              else Inl (Errdefs ErrNotFound ''container not found'')),
      Task = (\<lambda>w c. if c \<in> set (tasks w) then Inr c else Inl task_gone),
      Delete = (\<lambda>w t. (None, w\<lparr>tasks := removeAll t (tasks w)\<rparr>)),
      EnableMaintainance = (\<lambda>w i reason. (merr, w\<lparr>maintenance := i # maintenance w\<rparr>))\<rparr>"

definition daemon0 :: daemon where
  "daemon0 = \<lparr>containers = [''web-1''], tasks = [], maintenance = []\<rparr>"

text \<open>
  The daemon with a task for \<open>web-1\<close>, and a runtime whose \<open>Delete\<close> removes the task
  and answers that it was already gone.
\<close>

definition daemon1 :: daemon where
  "daemon1 = \<lparr>containers = [''web-1''], tasks = [''web-1''], maintenance = []\<rparr>"

definition rt_delete_gone :: "daemon runtime" where
  "rt_delete_gone =
     (rt_demo None)\<lparr>Delete := (\<lambda>w t. (Some task_gone, w\<lparr>tasks := removeAll t (tasks w)\<rparr>))\<rparr>"

section \<open>The classifier\<close>

lemma isUnavailable_simps [simp]:
  "isUnavailable None = False"
  "isUnavailable (Some (Status c m)) = (c = Unavailable)"
  "isUnavailable (Some (Errdefs k m)) = False"
  "isUnavailable (Some (Plain m)) = False"
  by (cases c; simp add: isUnavailable_def)+

section \<open>Reconnection: properties\<close>

lemma n_reconnect_after_rounds [simp]: "n_reconnect (after_rounds k w) = n_reconnect w + k"
  by (simp add: after_rounds_def)

lemma after_rounds_frame [simp]:
  "n_wait (after_rounds k w) = n_wait w" "n_kill (after_rounds k w) = n_kill w"
  "n_register (after_rounds k w) = n_register w" "trace (after_rounds k w) = trace w @ rounds k"
  by (simp_all add: after_rounds_def)

lemma reconnect_round:
  "client_Reconnect e (emit (Sleep 100) w) = (reconnect_res e (n_reconnect w), after_rounds 1 w)"
  by (simp add: client_Reconnect_def emit_def after_rounds_def rounds_def)

lemma after_rounds_add: "after_rounds k (after_rounds j w) = after_rounds (j + k) w"
  by (simp add: after_rounds_def rounds_def replicate_add)

lemma reconnect_loop_success:
  "\<forall>i<j. reconnect_res e (n_reconnect w + i) \<noteq> None \<Longrightarrow> reconnect_res e (n_reconnect w + j) = None
   \<Longrightarrow> i0 + j < 20 \<Longrightarrow> reconnect_loop e i0 err w = (None, after_rounds (Suc j) w)"
proof (induction j arbitrary: i0 err w)
  case 0
  then show ?case
    by (subst reconnect_loop.simps) (simp add: reconnect_round)
next
  case (Suc j)
  from Suc.prems(1) obtain x where x: "reconnect_res e (n_reconnect w) = Some x"
    by force
  have "reconnect_loop e (i0 + 1) (Some x) (after_rounds 1 w) = (None, after_rounds (Suc j) (after_rounds 1 w))"
  proof (rule Suc.IH)
    show "\<forall>i<j. reconnect_res e (n_reconnect (after_rounds 1 w) + i) \<noteq> None"
    proof (intro allI impI)
      fix i assume "i < j"
      then have "reconnect_res e (n_reconnect w + Suc i) \<noteq> None"
        using Suc.prems(1) by blast
      then show "reconnect_res e (n_reconnect (after_rounds 1 w) + i) \<noteq> None"
        by simp
    qed
    show "reconnect_res e (n_reconnect (after_rounds 1 w) + j) = None"
      using Suc.prems(2) by simp
    show "i0 + 1 + j < 20" using Suc.prems(3) by simp
  qed
  moreover have "i0 < 20" using Suc.prems(3) by simp
  ultimately show ?case
    by (subst reconnect_loop.simps) (simp add: reconnect_round x after_rounds_add)
qed

lemma reconnect_loop_exhaust:
  "\<forall>i<k. reconnect_res e (n_reconnect w + i) \<noteq> None \<Longrightarrow> i0 + k = 20 \<Longrightarrow>
   reconnect_loop e i0 err w = ((if k = 0 then err else reconnect_res e (n_reconnect w + (k - 1))), after_rounds k w)"
proof (induction k arbitrary: i0 err w)
  case 0
  then show ?case
    by (subst reconnect_loop.simps) (simp add: after_rounds_def rounds_def)
next
  case (Suc k)
  from Suc.prems(1) obtain x where x: "reconnect_res e (n_reconnect w) = Some x"
    by force
  have "reconnect_loop e (i0 + 1) (Some x) (after_rounds 1 w) =
    ((if k = 0 then Some x else reconnect_res e (n_reconnect (after_rounds 1 w) + (k - 1))), after_rounds k (after_rounds 1 w))"
  proof (rule Suc.IH)
    show "\<forall>i<k. reconnect_res e (n_reconnect (after_rounds 1 w) + i) \<noteq> None"
    proof (intro allI impI)
      fix i assume "i < k"
      then have "reconnect_res e (n_reconnect w + Suc i) \<noteq> None"
        using Suc.prems(1) by blast
      then show "reconnect_res e (n_reconnect (after_rounds 1 w) + i) \<noteq> None"
        by simp
    qed
    show "i0 + 1 + k = 20" using Suc.prems(2) by simp
  qed
  moreover have "i0 < 20" using Suc.prems(2) by simp
  ultimately show ?case
    by (subst reconnect_loop.simps) (auto simp add: reconnect_round x after_rounds_add)
qed


lemma reconnect_cases:
  "(\<exists>j<20. (\<forall>i<j. reconnect_res e (n_reconnect w + i) \<noteq> None)
       \<and> reconnect_res e (n_reconnect w + j) = None
       \<and> reconnect e w = (None, after_rounds (Suc j) w))
   \<or> ((\<forall>i<20. reconnect_res e (n_reconnect w + i) \<noteq> None)
       \<and> reconnect e w = (reconnect_res e (n_reconnect w + 19), after_rounds 20 w))"
proof (cases "\<exists>j<20. reconnect_res e (n_reconnect w + j) = None")
  case True
  define j where "j = (LEAST j. j < 20 \<and> reconnect_res e (n_reconnect w + j) = None)"
  from True have j: "j < 20 \<and> reconnect_res e (n_reconnect w + j) = None"
    unfolding j_def by (rule LeastI_ex)
  have before: "\<forall>i<j. reconnect_res e (n_reconnect w + i) \<noteq> None"
  proof (intro allI impI)
    fix i assume ij: "i < j"
    show "reconnect_res e (n_reconnect w + i) \<noteq> None"
    proof
      assume "reconnect_res e (n_reconnect w + i) = None"
      with ij j have "i < 20 \<and> reconnect_res e (n_reconnect w + i) = None" by simp
      then have "j \<le> i" unfolding j_def by (rule Least_le)
      with ij show False by simp
    qed
  qed
  have "reconnect e w = (None, after_rounds (Suc j) w)"
    unfolding reconnect_def using before j by (intro reconnect_loop_success) auto
  with before j show ?thesis by blast
next
  case False
  then have all: "\<forall>i<20. reconnect_res e (n_reconnect w + i) \<noteq> None" by simp
  have "reconnect e w = (reconnect_res e (n_reconnect w + 19), after_rounds 20 w)"
    unfolding reconnect_def using reconnect_loop_exhaust [OF all, of 0 None] by simp
  with all show ?thesis by blast
qed


lemma reconnect_frame: "\<exists>k. 1 \<le> k \<and> k \<le> 20 \<and> snd (reconnect e w) = after_rounds k w"
  using reconnect_cases [of e w]
proof (elim disjE exE conjE)
  fix j assume "j < 20" "reconnect e w = (None, after_rounds (Suc j) w)"
  then show ?thesis by (intro exI [of _ "Suc j"]) simp
next
  assume "reconnect e w = (reconnect_res e (n_reconnect w + 19), after_rounds 20 w)"
  then show ?thesis by (intro exI [of _ 20]) simp
qed

text \<open>
  Claim C6. \<open>reconnect\<close> runs between one and twenty rounds, each of them a sleep of
  100 ms followed by one call of \<open>client.Reconnect\<close>. It returns \<open>nil\<close> after
  the first call that succeeds, so after one round when the first call succeeds, and
  after twenty failed calls it returns the error of the last one, which is not \<open>nil\<close>.
\<close>

theorem reconnect_bounded_retry:
  "(\<exists>k. 1 \<le> k \<and> k \<le> 20 \<and> snd (reconnect e w) = after_rounds k w)
   \<and> (reconnect_res e (n_reconnect w) = None \<longrightarrow> reconnect e w = (None, after_rounds 1 w))
   \<and> (\<forall>j<20. (\<forall>i<j. reconnect_res e (n_reconnect w + i) \<noteq> None)
          \<and> reconnect_res e (n_reconnect w + j) = None
        \<longrightarrow> reconnect e w = (None, after_rounds (Suc j) w))
   \<and> ((\<forall>i<20. reconnect_res e (n_reconnect w + i) \<noteq> None)
        \<longrightarrow> fst (reconnect e w) \<noteq> None
          \<and> reconnect e w = (reconnect_res e (n_reconnect w + 19), after_rounds 20 w))"
proof (intro conjI)
  show "\<exists>k. 1 \<le> k \<and> k \<le> 20 \<and> snd (reconnect e w) = after_rounds k w"
    by (rule reconnect_frame)
  show "reconnect_res e (n_reconnect w) = None \<longrightarrow> reconnect e w = (None, after_rounds 1 w)"
    unfolding reconnect_def using reconnect_loop_success [of 0 e w 0 None] by simp
  show "\<forall>j<20. (\<forall>i<j. reconnect_res e (n_reconnect w + i) \<noteq> None)
          \<and> reconnect_res e (n_reconnect w + j) = None
        \<longrightarrow> reconnect e w = (None, after_rounds (Suc j) w)"
    unfolding reconnect_def by (auto intro!: reconnect_loop_success)
  show "(\<forall>i<20. reconnect_res e (n_reconnect w + i) \<noteq> None)
        \<longrightarrow> fst (reconnect e w) \<noteq> None
          \<and> reconnect e w = (reconnect_res e (n_reconnect w + 19), after_rounds 20 w)"
  proof
    assume all: "\<forall>i<20. reconnect_res e (n_reconnect w + i) \<noteq> None"
    have "reconnect e w = (reconnect_res e (n_reconnect w + 19), after_rounds 20 w)"
      unfolding reconnect_def using reconnect_loop_exhaust [OF all, of 0 None] by simp
    moreover have "reconnect_res e (n_reconnect w + 19) \<noteq> None" using all by simp
    ultimately show "fst (reconnect e w) \<noteq> None
          \<and> reconnect e w = (reconnect_res e (n_reconnect w + 19), after_rounds 20 w)" by simp
  qed
qed

lemma n_reconnect_world0: "n_reconnect world0 = 0"
  by (simp add: world0_def)

theorem reconnect_bounded_retry_witness:
  "reconnect (env_ok\<lparr>reconnect_res := (\<lambda>k. if k < 2 then Some unavailable else None)\<rparr>) world0
     = (None, after_rounds (Suc 2) world0)
   \<and> reconnect env_ok world0 = (None, after_rounds 1 world0)
   \<and> reconnect (env_ok\<lparr>reconnect_res := (\<lambda>k. Some unavailable)\<rparr>) world0
     = (Some unavailable, after_rounds 20 world0)"
proof (intro conjI)
  show "reconnect (env_ok\<lparr>reconnect_res := (\<lambda>k. if k < 2 then Some unavailable else None)\<rparr>) world0
     = (None, after_rounds (Suc 2) world0)"
  proof (rule reconnect_bounded_retry [THEN conjunct2, THEN conjunct2, THEN conjunct1, rule_format])
    show "(2::nat) < 20" by simp
    show "(\<forall>i<2. reconnect_res (env_ok\<lparr>reconnect_res := (\<lambda>k. if k < 2 then Some unavailable else None)\<rparr>)
              (n_reconnect world0 + i) \<noteq> None)
      \<and> reconnect_res (env_ok\<lparr>reconnect_res := (\<lambda>k. if k < 2 then Some unavailable else None)\<rparr>)
              (n_reconnect world0 + 2) = None"
      by (simp add: n_reconnect_world0)
  qed
  show "reconnect env_ok world0 = (None, after_rounds 1 world0)"
    by (rule reconnect_bounded_retry [THEN conjunct2, THEN conjunct1, rule_format])
      (simp add: env_ok_def)
  have "reconnect (env_ok\<lparr>reconnect_res := (\<lambda>k. Some unavailable)\<rparr>) world0
     = (reconnect_res (env_ok\<lparr>reconnect_res := (\<lambda>k. Some unavailable)\<rparr>) (n_reconnect world0 + 19),
        after_rounds 20 world0)"
    by (rule reconnect_bounded_retry [THEN conjunct2, THEN conjunct2, THEN conjunct2, rule_format, THEN conjunct2])
      simp
  then show "reconnect (env_ok\<lparr>reconnect_res := (\<lambda>k. Some unavailable)\<rparr>) world0
     = (Some unavailable, after_rounds 20 world0)"
    by simp
qed

section \<open>Cleanup: properties\<close>

text \<open>
  Claim C8. When the container loads and the lookup of its task answers with a
  not-found error, \<open>cleanupPreviousTask\<close> returns \<open>nil\<close> and leaves the daemon as it
  was; a second call right after it does the same.
\<close>

theorem cleanup_no_task_idempotent:
  assumes "LoadContainer rt w ident = Inr container"
    and "Task rt w container = Inl err"
    and "IsNotFound (Some err)"
  shows "cleanupPreviousTask rt w ident = (None, w)
    \<and> cleanupPreviousTask rt (snd (cleanupPreviousTask rt w ident)) ident = (None, w)"
  using assms by (simp add: cleanupPreviousTask_def)

theorem cleanup_no_task_idempotent_witness:
  "cleanupPreviousTask (rt_demo None) daemon0 ''web-1'' = (None, daemon0)
   \<and> cleanupPreviousTask (rt_demo None) (snd (cleanupPreviousTask (rt_demo None) daemon0 ''web-1'')) ''web-1''
     = (None, daemon0)"
  by (rule cleanup_no_task_idempotent [of _ _ _ "''web-1''" task_gone])
    (simp_all add: rt_demo_def daemon0_def task_gone_def)

text \<open>
  Claim C10. An error of \<open>LoadContainer\<close>, whatever its class, is what
  \<open>cleanupPreviousTask\<close> returns, and the daemon is left as it was. Once the container
  has loaded, an error of the task lookup is turned into \<open>nil\<close> when it is a
  not-found error and returned otherwise. Once the task has been found, what
  \<open>Delete\<close> answers is what \<open>cleanupPreviousTask\<close> returns, a not-found error
  included: the task lookup is the only place where an error becomes success.
\<close>

theorem cleanup_load_error_returned:
  "(LoadContainer rt w ident = Inl err \<longrightarrow> cleanupPreviousTask rt w ident = (Some err, w))
   \<and> (LoadContainer rt w ident = Inr container \<and> Task rt w container = Inl err
        \<longrightarrow> cleanupPreviousTask rt w ident = ((if IsNotFound (Some err) then None else Some err), w))
   \<and> (LoadContainer rt w ident = Inr container \<and> Task rt w container = Inr task
        \<longrightarrow> cleanupPreviousTask rt w ident = Delete rt w task)"
  by (simp add: cleanupPreviousTask_def)

theorem cleanup_load_error_returned_witness:
  "IsNotFound (Some (Errdefs ErrNotFound ''container not found''))
   \<and> cleanupPreviousTask (rt_demo None) daemon0 ''db-9''
       = (Some (Errdefs ErrNotFound ''container not found''), daemon0)
   \<and> cleanupPreviousTask (rt_demo None) daemon0 ''web-1'' = (None, daemon0)
   \<and> IsNotFound (Some task_gone)
   \<and> cleanupPreviousTask rt_delete_gone daemon1 ''web-1'' = (Some task_gone, daemon0)"
proof (intro conjI)
  show "IsNotFound (Some (Errdefs ErrNotFound ''container not found''))" by simp
  show "cleanupPreviousTask (rt_demo None) daemon0 ''db-9''
       = (Some (Errdefs ErrNotFound ''container not found''), daemon0)"
    by (rule cleanup_load_error_returned [THEN conjunct1, rule_format])
      (simp add: rt_demo_def daemon0_def)
  have "cleanupPreviousTask (rt_demo None) daemon0 ''web-1''
      = ((if IsNotFound (Some task_gone) then None else Some task_gone), daemon0)"
    by (rule cleanup_load_error_returned [THEN conjunct2, THEN conjunct1, rule_format,
          of _ _ _ "''web-1''"])
      (simp add: rt_demo_def daemon0_def)
  then show "cleanupPreviousTask (rt_demo None) daemon0 ''web-1'' = (None, daemon0)"
    by (simp add: task_gone_def)
  show "IsNotFound (Some task_gone)" by (simp add: task_gone_def)
  have "cleanupPreviousTask rt_delete_gone daemon1 ''web-1'' = Delete rt_delete_gone daemon1 ''web-1''"
    by (rule cleanup_load_error_returned [THEN conjunct2, THEN conjunct2, rule_format,
          of _ _ _ "''web-1''"])
      (simp add: rt_delete_gone_def rt_demo_def daemon1_def)
  then show "cleanupPreviousTask rt_delete_gone daemon1 ''web-1'' = (Some task_gone, daemon0)"
    by (simp add: rt_delete_gone_def rt_demo_def daemon1_def daemon0_def)
qed

section \<open>The supervisor loop: what it returns\<close>

lemma trace_emit [simp]: "trace (emit a w) = trace w @ [a]"
  by (simp add: emit_def)

lemma counters_emit [simp]:
  "n_wait (emit a w) = n_wait w" "n_kill (emit a w) = n_kill w"
  "n_reconnect (emit a w) = n_reconnect w" "n_register (emit a w) = n_register w"
  by (simp_all add: emit_def)

text \<open>
  The function's own \<open>err\<close> is \<open>nil\<close> when the loop is entered, and the loop
  classifies it, not the error of the wait event: every wait event with an error
  ends the loop with \<open>(-1, nil)\<close>.
\<close>

lemma loop_wait_event:
  "loop e (SelWait # cs) None (Some exit) started w =
     ((if exit_error exit \<noteq> None then Some (- 1, None) else Some (uint (exit_code exit), None)),
      emit RecvWait w)"
  by simp

lemma fst_loop: "fst (loop e cs None wait started w) = loop_result cs wait started"
proof (induction cs arbitrary: wait started w)
  case Nil
  show ?case by simp
next
  case (Cons c cs)
  show ?case
  proof (cases c)
    case SelStarted
    then show ?thesis
      by (simp add: Cons.IH DisableMaintainance_def split: option.splits)
  next
    case (SelSignal s)
    then show ?thesis by (simp add: Cons.IH)
  next
    case SelWait
    then show ?thesis
      by (cases wait) (simp_all add: Cons.IH)
  qed
qed

lemma fst_monitorTask:
  "fst (monitorTask e sched w) =
     (case wait_res e (n_wait w) of
        Inl werr \<Rightarrow> Some (- 1, Some werr)
      | Inr ch \<Rightarrow> loop_result sched (Some ch) (Some (start_res e)))"
proof (cases "wait_res e (n_wait w)")
  case (Inl werr)
  then show ?thesis by (simp add: monitorTask_def task_Wait_def)
next
  case (Inr ch)
  have "fst (loop e sched None (Some ch) (Some (start_res e)) (emit GoStart (snd (task_Wait e w))))
      = loop_result sched (Some ch) (Some (start_res e))"
    by (rule fst_loop)
  with Inr show ?thesis
    by (auto simp add: monitorTask_def task_Wait_def split: prod.splits option.splits)
qed

text \<open>
  Claim C1. The connection drops once while the task runs: the first wait event
  carries an unavailable error, every reconnection would succeed, and the second
  subscription would deliver exit code 0. The start hook makes no reconnection and no
  second subscription; it tears the task down and ends the process with
  \<open>os.Exit(-1)\<close>, not with the task's exit code.
\<close>

theorem start_hook_unavailable_wait_exits_minus_one:
  "systemdExecStart
     (env_ok\<lparr>wait_res := (\<lambda>k. if k = 0 then Inr \<lparr>exit_code = 255, exit_error = Some unavailable\<rparr>
                              else Inr \<lparr>exit_code = 0, exit_error = None\<rparr>)\<rparr>)
     [SelStarted, SelWait, SelWait] ''web-1''
   = (Exited (- 1),
      world0\<lparr>n_register := 1, n_wait := 1,
        trace := [CallLoadContainer ''web-1'', CallInfo, CallNewTask, CallCreate,
          LogDebug ''setup network interface'', CallRegister ''http'',
          CallWait None, GoStart, RecvStarted None, CallDisableMaintainance, RecvWait,
          CallDelete, OsExit (- 1)]\<rparr>)"
  by (simp add: systemdExecStart_def monitorTask_def getConfig_def setupNetworking_def Register_def
      task_Wait_def task_Delete_def DisableMaintainance_def emit_def env_ok_def world0_def)

text \<open>
  Claim C2. The wait event carries a task-level error (the task is not found).
  \<open>monitorTask\<close> makes no reconnection and returns at once, but what it returns is
  \<open>(-1, nil)\<close>: the error of the wait event is neither classified nor handed to the
  caller.
\<close>

theorem monitorTask_task_level_wait_error_returns_nil:
  "monitorTask (env_ok\<lparr>wait_res := (\<lambda>k. Inr \<lparr>exit_code = 255, exit_error = Some task_not_found\<rparr>)\<rparr>)
     [SelStarted, SelWait] world0
   = (Some (- 1, None),
      world0\<lparr>n_wait := 1,
        trace := [CallWait None, GoStart, RecvStarted None, CallDisableMaintainance, RecvWait,
          CallDelete]\<rparr>)"
  by (simp add: monitorTask_def task_Wait_def task_Delete_def DisableMaintainance_def emit_def
      env_ok_def world0_def)

section \<open>Signal relay: properties\<close>

lemma set_rounds: "set (rounds k) \<subseteq> {Sleep 100, CallReconnect}"
  by (induction k) (auto simp: rounds_def)

lemma count_rounds_kill [simp]: "count_list (rounds k) (CallKill s) = 0"
  using set_rounds [of k] by (intro count_notin) auto

lemma task_Kill_eq:
  "task_Kill e s w = (kill_res e (n_kill w), snd (task_Kill e s w))"
  by (simp add: task_Kill_def)

lemma task_Kill_frame [simp]:
  "trace (snd (task_Kill e s w)) = trace w @ [CallKill s]"
  "n_kill (snd (task_Kill e s w)) = n_kill w + 1"
  "n_wait (snd (task_Kill e s w)) = n_wait w"
  "n_register (snd (task_Kill e s w)) = n_register w"
  "n_reconnect (snd (task_Kill e s w)) = n_reconnect w"
  by (simp_all add: task_Kill_def)

lemma trySendSignal_loop_unfold:
  "i < 5 \<Longrightarrow> trySendSignal_loop e s i w =
     (case kill_res e (n_kill w) of
        None \<Rightarrow> (None, snd (task_Kill e s w))
      | Some x \<Rightarrow>
          (if \<not> isUnavailable (Some x) then (Some x, snd (task_Kill e s w))
           else (case reconnect e (snd (task_Kill e s w)) of
                   (Some y, w2) \<Rightarrow> (Some y, w2)
                 | (None, w2) \<Rightarrow> trySendSignal_loop e s (i + 1) w2)))"
  by (subst trySendSignal_loop.simps) (simp add: task_Kill_def split: option.splits)

lemma trySendSignal_loop_done:
  "\<not> i < 5 \<Longrightarrow> trySendSignal_loop e s i w = (Some errUnableToSignal, w)"
  by (subst trySendSignal_loop.simps) simp

lemma trySendSignal_loop_frame:
  "5 - i = n \<Longrightarrow>
   \<exists>tr. trace (snd (trySendSignal_loop e s i w)) = trace w @ tr
     \<and> set tr \<subseteq> {CallKill s, Sleep 100, CallReconnect}
     \<and> count_list tr (CallKill s) \<le> n
     \<and> (i < 5 \<longrightarrow> 1 \<le> count_list tr (CallKill s))
     \<and> n_wait (snd (trySendSignal_loop e s i w)) = n_wait w
     \<and> n_register (snd (trySendSignal_loop e s i w)) = n_register w"
proof (induction n arbitrary: i w)
  case 0
  then have "\<not> i < 5" by simp
  then show ?case by (simp add: trySendSignal_loop_done)
next
  case (Suc n)
  then have i: "i < 5" by simp
  let ?w1 = "snd (task_Kill e s w)"
  show ?case
  proof (cases "kill_res e (n_kill w)")
    case None
    then show ?thesis using i by (simp add: trySendSignal_loop_unfold)
  next
    case (Some x)
    show ?thesis
    proof (cases "isUnavailable (Some x)")
      case False
      then show ?thesis using i Some by (simp add: trySendSignal_loop_unfold)
    next
      case True
      obtain k where k: "snd (reconnect e ?w1) = after_rounds k ?w1"
        using reconnect_frame [of e ?w1] by blast
      show ?thesis
      proof (cases "fst (reconnect e ?w1)")
        case (Some y)
        then have r: "reconnect e ?w1 = (Some y, after_rounds k ?w1)"
          using k by (metis prod.collapse)
        have "trySendSignal_loop e s i w = (Some y, after_rounds k ?w1)"
          using i \<open>kill_res e (n_kill w) = Some x\<close> True r by (simp add: trySendSignal_loop_unfold)
        moreover have "set (CallKill s # rounds k) \<subseteq> {CallKill s, Sleep 100, CallReconnect}"
          using set_rounds [of k] by auto
        ultimately show ?thesis
          by (intro exI [of _ "CallKill s # rounds k"]) simp
      next
        case None
        then have r: "reconnect e ?w1 = (None, after_rounds k ?w1)"
          using k by (metis prod.collapse)
        let ?w2 = "after_rounds k ?w1"
        have step: "trySendSignal_loop e s i w = trySendSignal_loop e s (i + 1) ?w2"
          using i \<open>kill_res e (n_kill w) = Some x\<close> True r by (simp add: trySendSignal_loop_unfold)
        have "5 - (i + 1) = n" using Suc.prems by simp
        from Suc.IH [OF this, of ?w2] obtain tr where tr:
          "trace (snd (trySendSignal_loop e s (i + 1) ?w2)) = trace ?w2 @ tr"
          "set tr \<subseteq> {CallKill s, Sleep 100, CallReconnect}"
          "count_list tr (CallKill s) \<le> n"
          "n_wait (snd (trySendSignal_loop e s (i + 1) ?w2)) = n_wait ?w2"
          "n_register (snd (trySendSignal_loop e s (i + 1) ?w2)) = n_register ?w2"
          by blast
        have "set (CallKill s # rounds k @ tr) \<subseteq> {CallKill s, Sleep 100, CallReconnect}"
          using set_rounds [of k] tr(2) by auto
        then show ?thesis
          using tr by (intro exI [of _ "CallKill s # rounds k @ tr"]) (simp add: step)
      qed
    qed
  qed
qed


lemma world0_fields [simp]:
  "n_register world0 = 0" "n_wait world0 = 0" "n_kill world0 = 0" "trace world0 = []"
  by (simp_all add: world0_def)

lemma trySendSignal_frame:
  "\<exists>tr. trace (snd (trySendSignal e s w)) = trace w @ tr
     \<and> set tr \<subseteq> {CallKill s, Sleep 100, CallReconnect}
     \<and> 1 \<le> count_list tr (CallKill s) \<and> count_list tr (CallKill s) \<le> 5
     \<and> n_wait (snd (trySendSignal e s w)) = n_wait w
     \<and> n_register (snd (trySendSignal e s w)) = n_register w"
  unfolding trySendSignal_def
  using trySendSignal_loop_frame [of 0 5 e s w] by auto

lemma on_signal_eq:
  "on_signal e s w =
     (case fst (trySendSignal e s (emit (RecvSignal s) w)) of
        None \<Rightarrow> snd (trySendSignal e s (emit (RecvSignal s) w))
      | Some x \<Rightarrow> emit (LogError ''signal task'' x) (snd (trySendSignal e s (emit (RecvSignal s) w))))"
  by (auto simp add: on_signal_def split: prod.splits option.splits)

lemma on_signal_frame:
  "\<exists>tr. trace (on_signal e s w) = trace w @ tr
     \<and> set tr \<subseteq> {RecvSignal s, CallKill s, Sleep 100, CallReconnect} \<union> range (LogError ''signal task'')
     \<and> n_wait (on_signal e s w) = n_wait w
     \<and> n_register (on_signal e s w) = n_register w"
proof -
  let ?w0 = "emit (RecvSignal s) w"
  obtain tr where tr: "trace (snd (trySendSignal e s ?w0)) = trace ?w0 @ tr"
    "set tr \<subseteq> {CallKill s, Sleep 100, CallReconnect}"
    "n_wait (snd (trySendSignal e s ?w0)) = n_wait ?w0"
    "n_register (snd (trySendSignal e s ?w0)) = n_register ?w0"
    using trySendSignal_frame [of e s ?w0] by blast
  show ?thesis
  proof (cases "fst (trySendSignal e s ?w0)")
    case None
    then have "on_signal e s w = snd (trySendSignal e s ?w0)"
      by (simp add: on_signal_eq)
    with tr show ?thesis
      by (intro exI [of _ "RecvSignal s # tr"]) auto
  next
    case (Some x)
    then have "on_signal e s w = emit (LogError ''signal task'' x) (snd (trySendSignal e s ?w0))"
      by (simp add: on_signal_eq)
    with tr show ?thesis
      by (intro exI [of _ "RecvSignal s # tr @ [LogError ''signal task'' x]"]) auto
  qed
qed

section \<open>The supervisor loop: its trace\<close>

lemma set_rounds_not:
  "CallDelete \<notin> set (rounds k)" "GoStart \<notin> set (rounds k)" "RecvWait \<notin> set (rounds k)"
  "CallDisableMaintainance \<notin> set (rounds k)" "CallWait r \<notin> set (rounds k)"
  using set_rounds [of k] by auto

lemma on_signal_trace:
  obtains tr where "trace (on_signal e s w) = trace w @ tr"
    "CallDelete \<notin> set tr" "GoStart \<notin> set tr" "RecvWait \<notin> set tr"
    "CallDisableMaintainance \<notin> set tr" "\<forall>r. CallWait r \<notin> set tr"
proof -
  obtain tr where tr: "trace (on_signal e s w) = trace w @ tr"
    "set tr \<subseteq> {RecvSignal s, CallKill s, Sleep 100, CallReconnect} \<union> range (LogError ''signal task'')"
    using on_signal_frame [of e s w] by blast
  show thesis
  proof (rule that [of tr])
    show "trace (on_signal e s w) = trace w @ tr" by (rule tr(1))
  qed (use tr(2) in auto)
qed

lemma n_wait_on_signal [simp]: "n_wait (on_signal e s w) = n_wait w"
  using on_signal_frame [of e s w] by blast

lemma loop_started_nil:
  "loop e (SelStarted # cs) err wait (Some None) w =
     loop e cs err wait None
       (case disable_res e of
          None \<Rightarrow> emit CallDisableMaintainance (emit (RecvStarted None) w)
        | Some derr \<Rightarrow>
            emit (LogError ''disable service maintenance'' derr)
              (emit CallDisableMaintainance (emit (RecvStarted None) w)))"
  by (simp add: DisableMaintainance_def split: option.splits)

text \<open>The loop itself never deletes the task and never issues start.\<close>

lemma loop_no_delete:
  "\<exists>tr. trace (snd (loop e cs err wait started w)) = trace w @ tr
     \<and> CallDelete \<notin> set tr \<and> GoStart \<notin> set tr"
proof (induction cs arbitrary: err wait started w)
  case Nil
  show ?case by simp
next
  case (Cons c cs)
  show ?case
  proof (cases c)
    case SelStarted
    show ?thesis
    proof (cases started)
      case None
      with SelStarted Cons.IH [of err wait None w] show ?thesis by simp
    next
      case (Some r)
      show ?thesis
      proof (cases r)
        case (Some serr)
        with SelStarted \<open>started = Some r\<close> show ?thesis by simp
      next
        case None
        let ?w1 = "case disable_res e of
          None \<Rightarrow> emit CallDisableMaintainance (emit (RecvStarted None) w)
        | Some derr \<Rightarrow>
            emit (LogError ''disable service maintenance'' derr)
              (emit CallDisableMaintainance (emit (RecvStarted None) w))"
        obtain tr where tr: "trace (snd (loop e cs err wait None ?w1)) = trace ?w1 @ tr"
          "CallDelete \<notin> set tr" "GoStart \<notin> set tr"
          using Cons.IH [of err wait None ?w1] by blast
        have "\<exists>t1. trace ?w1 = trace w @ t1 \<and> CallDelete \<notin> set t1 \<and> GoStart \<notin> set t1"
          by (cases "disable_res e") auto
        then obtain t1 where t1: "trace ?w1 = trace w @ t1" "CallDelete \<notin> set t1" "GoStart \<notin> set t1"
          by blast
        have "loop e (c # cs) err wait started w = loop e cs err wait None ?w1"
          unfolding SelStarted None \<open>started = Some r\<close> by (rule loop_started_nil)
        with tr t1 show ?thesis
          by (intro exI [of _ "t1 @ tr"]) simp
      qed
    qed
  next
    case (SelSignal s)
    obtain t1 where t1: "trace (on_signal e s w) = trace w @ t1"
      "CallDelete \<notin> set t1" "GoStart \<notin> set t1"
      by (rule on_signal_trace)
    obtain tr where tr: "trace (snd (loop e cs err wait started (on_signal e s w))) = trace (on_signal e s w) @ tr"
      "CallDelete \<notin> set tr" "GoStart \<notin> set tr"
      using Cons.IH [of err wait started "on_signal e s w"] by blast
    show ?thesis
      using t1 tr SelSignal by (intro exI [of _ "t1 @ tr"]) simp
  next
    case SelWait
    show ?thesis
    proof (cases wait)
      case None
      with SelWait Cons.IH [of err None started w] show ?thesis by simp
    next
      case (Some exit)
      show ?thesis
      proof (cases "exit_error exit \<noteq> None \<and> isUnavailable err")
        case False
        with SelWait Some show ?thesis by auto
      next
        case True
        let ?w0 = "emit RecvWait w"
        obtain k where k: "snd (reconnect e ?w0) = after_rounds k ?w0"
          using reconnect_frame [of e ?w0] by blast
        show ?thesis
        proof (cases "fst (reconnect e ?w0)")
          case (Some rerr)
          then have "reconnect e ?w0 = (Some rerr, after_rounds k ?w0)"
            using k by (metis prod.collapse)
          with SelWait \<open>wait = Some exit\<close> True show ?thesis
            by (intro exI [of _ "RecvWait # rounds k"]) (simp add: set_rounds_not)
        next
          case None
          then have r: "reconnect e ?w0 = (None, after_rounds k ?w0)"
            using k by (metis prod.collapse)
          let ?w1 = "after_rounds k ?w0"
          show ?thesis
          proof (cases "wait_res e (n_wait ?w1)")
            case (Inl werr)
            with SelWait \<open>wait = Some exit\<close> True r show ?thesis
              by (intro exI [of _ "RecvWait # rounds k @ [CallWait (Some werr)]"])
                (simp add: set_rounds_not task_Wait_def)
          next
            case (Inr ch)
            let ?w2 = "snd (task_Wait e ?w1)"
            obtain tr where tr: "trace (snd (loop e cs None (Some ch) started ?w2)) = trace ?w2 @ tr"
              "CallDelete \<notin> set tr" "GoStart \<notin> set tr"
              using Cons.IH [of None "Some ch" started ?w2] by blast
            have "loop e (c # cs) err wait started w = loop e cs None (Some ch) started ?w2"
              using SelWait \<open>wait = Some exit\<close> True r Inr by (simp add: task_Wait_def)
            with tr Inr show ?thesis
              by (intro exI [of _ "RecvWait # rounds k @ CallWait None # tr"])
                (simp add: set_rounds_not task_Wait_def)
          qed
        qed
      qed
    qed
  qed
qed

lemma only_last_prepend: "a \<notin> set t1 \<Longrightarrow> only_last a tr \<Longrightarrow> only_last a (t1 @ tr)"
  unfolding only_last_def
proof (elim disjE exE conjE)
  assume "a \<notin> set t1" "a \<notin> set tr"
  then show "a \<notin> set (t1 @ tr) \<or> (\<exists>pre. t1 @ tr = pre @ [a] \<and> a \<notin> set pre)" by simp
next
  fix pre assume "a \<notin> set t1" "tr = pre @ [a]" "a \<notin> set pre"
  then have "t1 @ tr = (t1 @ pre) @ [a] \<and> a \<notin> set (t1 @ pre)" by simp
  then show "a \<notin> set (t1 @ tr) \<or> (\<exists>pre. t1 @ tr = pre @ [a] \<and> a \<notin> set pre)" by blast
qed

lemma cleared_once_prepend:
  assumes "CallDisableMaintainance \<notin> set t1" and "cleared_once e tr"
  shows "cleared_once e (t1 @ tr)"
proof -
  from assms(2) obtain pre post where p: "tr = pre @ RecvStarted None # CallDisableMaintainance # post"
    "CallDisableMaintainance \<notin> set pre" "CallDisableMaintainance \<notin> set post"
    "\<forall>x. disable_res e = Some x \<longrightarrow> (\<exists>post'. post = LogError ''disable service maintenance'' x # post')"
    unfolding cleared_once_def by blast
  have "t1 @ tr = (t1 @ pre) @ RecvStarted None # CallDisableMaintainance # post"
    using p(1) by simp
  moreover have "CallDisableMaintainance \<notin> set (t1 @ pre)" using assms(1) p(2) by simp
  ultimately show ?thesis
    unfolding cleared_once_def using p(3,4) by blast
qed

lemma cleared_once_start:
  assumes "CallDisableMaintainance \<notin> set tr"
  shows "cleared_once e
    ((case disable_res e of
        None \<Rightarrow> [RecvStarted None, CallDisableMaintainance]
      | Some derr \<Rightarrow> [RecvStarted None, CallDisableMaintainance,
          LogError ''disable service maintenance'' derr]) @ tr)"
proof (cases "disable_res e")
  case None
  then show ?thesis
    unfolding cleared_once_def using assms
    by (intro exI [of _ "[]"] exI [of _ tr]) simp
next
  case (Some derr)
  then show ?thesis
    unfolding cleared_once_def using assms
    by (intro exI [of _ "[]"] exI [of _ "LogError ''disable service maintenance'' derr # tr"]) simp
qed

lemma loop_shape:
  "\<exists>tr. trace (snd (loop e cs None wait started w)) = trace w @ tr
     \<and> (\<forall>r. CallWait r \<notin> set tr) \<and> only_last RecvWait tr
     \<and> (CallDisableMaintainance \<notin> set tr \<or> started = Some None \<and> cleared_once e tr)"
proof (induction cs arbitrary: wait started w)
  case Nil
  show ?case by (simp add: only_last_def)
next
  case (Cons c cs)
  show ?case
  proof (cases c)
    case SelStarted
    show ?thesis
    proof (cases started)
      case None
      with SelStarted Cons.IH [of wait None w] show ?thesis by simp
    next
      case (Some r)
      show ?thesis
      proof (cases r)
        case (Some serr)
        with SelStarted \<open>started = Some r\<close> show ?thesis by (simp add: only_last_def)
      next
        case None
        let ?t1 = "case disable_res e of
            None \<Rightarrow> [RecvStarted None, CallDisableMaintainance]
          | Some derr \<Rightarrow> [RecvStarted None, CallDisableMaintainance,
              LogError ''disable service maintenance'' derr]"
        let ?w1 = "case disable_res e of
          None \<Rightarrow> emit CallDisableMaintainance (emit (RecvStarted None) w)
        | Some derr \<Rightarrow>
            emit (LogError ''disable service maintenance'' derr)
              (emit CallDisableMaintainance (emit (RecvStarted None) w))"
        have t1: "trace ?w1 = trace w @ ?t1" "\<forall>r. CallWait r \<notin> set ?t1" "RecvWait \<notin> set ?t1"
          by (cases "disable_res e"; simp)+
        obtain tr where tr: "trace (snd (loop e cs None wait None ?w1)) = trace ?w1 @ tr"
          "\<forall>r. CallWait r \<notin> set tr" "only_last RecvWait tr" "CallDisableMaintainance \<notin> set tr"
          using Cons.IH [of wait None ?w1] by auto
        have eq: "loop e (c # cs) None wait started w = loop e cs None wait None ?w1"
          unfolding SelStarted None \<open>started = Some r\<close> by (rule loop_started_nil)
        have "trace (snd (loop e (c # cs) None wait started w)) = trace w @ ?t1 @ tr"
          using eq tr(1) t1(1) by simp
        moreover have "\<forall>r. CallWait r \<notin> set (?t1 @ tr)" using t1(2) tr(2) by simp
        moreover have "only_last RecvWait (?t1 @ tr)"
          using t1(3) tr(3) by (rule only_last_prepend)
        moreover have "cleared_once e (?t1 @ tr)" using tr(4) by (rule cleared_once_start)
        ultimately show ?thesis
          using None \<open>started = Some r\<close> by blast
      qed
    qed
  next
    case (SelSignal s)
    obtain t1 where t1: "trace (on_signal e s w) = trace w @ t1"
      "RecvWait \<notin> set t1" "CallDisableMaintainance \<notin> set t1" "\<forall>r. CallWait r \<notin> set t1"
      by (rule on_signal_trace)
    obtain tr where tr: "trace (snd (loop e cs None wait started (on_signal e s w))) = trace (on_signal e s w) @ tr"
      "\<forall>r. CallWait r \<notin> set tr" "only_last RecvWait tr"
      "CallDisableMaintainance \<notin> set tr \<or> started = Some None \<and> cleared_once e tr"
      using Cons.IH [of wait started "on_signal e s w"] by blast
    have "trace (snd (loop e (c # cs) None wait started w)) = trace w @ t1 @ tr"
      using SelSignal t1(1) tr(1) by simp
    moreover have "\<forall>r. CallWait r \<notin> set (t1 @ tr)" using t1(4) tr(2) by simp
    moreover have "only_last RecvWait (t1 @ tr)" using t1(2) tr(3) by (rule only_last_prepend)
    moreover have "CallDisableMaintainance \<notin> set (t1 @ tr) \<or> started = Some None \<and> cleared_once e (t1 @ tr)"
      using tr(4) t1(3) cleared_once_prepend [of t1 e tr] by auto
    ultimately show ?thesis by blast
  next
    case SelWait
    show ?thesis
    proof (cases wait)
      case None
      with SelWait Cons.IH [of None started w] show ?thesis by simp
    next
      case (Some exit)
      have "trace (snd (loop e (c # cs) None wait started w)) = trace w @ [RecvWait]"
        unfolding SelWait Some by (simp add: loop_wait_event)
      moreover have "only_last RecvWait [RecvWait]" by (simp add: only_last_def)
      ultimately show ?thesis
        by (intro exI [of _ "[RecvWait]"]) simp
    qed
  qed
qed

section \<open>\<open>monitorTask\<close>: its trace\<close>

lemma monitorTask_wait_failed:
  "wait_res e (n_wait w) = Inl werr \<Longrightarrow>
   fst (monitorTask e sched w) = Some (- 1, Some werr)
   \<and> trace (snd (monitorTask e sched w)) = trace w @ [CallWait (Some werr), CallDelete]"
  by (simp add: monitorTask_def task_Wait_def task_Delete_def)

lemma monitorTask_trace:
  assumes "wait_res e (n_wait w) = Inr ch"
  shows "\<exists>ltr. trace (snd (monitorTask e sched w)) =
        trace w @ CallWait None # GoStart # ltr
          @ (if fst (monitorTask e sched w) = None then [] else [CallDelete])
     \<and> CallDelete \<notin> set ltr \<and> GoStart \<notin> set ltr
     \<and> (\<forall>r. CallWait r \<notin> set ltr) \<and> only_last RecvWait ltr
     \<and> (CallDisableMaintainance \<notin> set ltr \<or> start_res e = None \<and> cleared_once e ltr)"
proof -
  let ?w1 = "emit GoStart (snd (task_Wait e w))"
  let ?l = "loop e sched None (Some ch) (Some (start_res e)) ?w1"
  have w1: "trace ?w1 = trace w @ [CallWait None, GoStart]"
    using assms by (simp add: task_Wait_def)
  obtain t1 where t1: "trace (snd ?l) = trace ?w1 @ t1" "CallDelete \<notin> set t1" "GoStart \<notin> set t1"
    using loop_no_delete [of e sched None "Some ch" "Some (start_res e)" ?w1] by blast
  obtain t2 where t2: "trace (snd ?l) = trace ?w1 @ t2"
    "\<forall>r. CallWait r \<notin> set t2" "only_last RecvWait t2"
    "CallDisableMaintainance \<notin> set t2 \<or> Some (start_res e) = Some None \<and> cleared_once e t2"
    using loop_shape [of e sched "Some ch" "Some (start_res e)" ?w1] by blast
  from t1(1) t2(1) have same: "t2 = t1" by simp
  have m: "monitorTask e sched w =
      (case ?l of (None, w2) \<Rightarrow> (None, w2) | (Some res, w2) \<Rightarrow> (Some res, snd (task_Delete e w2)))"
    using assms by (simp add: monitorTask_def task_Wait_def)
  have "trace (snd (monitorTask e sched w)) =
        trace w @ CallWait None # GoStart # t1
          @ (if fst (monitorTask e sched w) = None then [] else [CallDelete])"
    using t1(1) w1 by (cases ?l) (auto simp add: m task_Delete_def split: option.splits)
  with t1 t2 same show ?thesis by auto
qed

lemma cleared_once_count: "cleared_once e tr \<Longrightarrow> count_list tr CallDisableMaintainance = 1"
  unfolding cleared_once_def by (auto simp: count_list_append)

text \<open>
  Claim C9. Whenever \<open>monitorTask\<close> returns, with an exit code or with an error, the
  deferred \<open>task.Delete\<close> with \<open>WithProcessKill\<close> has run exactly once, as the last
  thing the function did. What that call returns, an error that the task is already
  gone or any other, is dropped: the status and error that \<open>monitorTask\<close> returns are
  the same for every outcome of the teardown.
\<close>

theorem monitorTask_teardown_once:
  "(\<forall>res. fst (monitorTask e sched w) = Some res \<longrightarrow>
      (\<exists>tr. trace (snd (monitorTask e sched w)) = trace w @ tr @ [CallDelete]
         \<and> CallDelete \<notin> set tr))
   \<and> (\<forall>d. fst (monitorTask (e\<lparr>delete_res := d\<rparr>) sched w) = fst (monitorTask e sched w))"
proof (intro conjI allI impI)
  fix res assume res: "fst (monitorTask e sched w) = Some res"
  show "\<exists>tr. trace (snd (monitorTask e sched w)) = trace w @ tr @ [CallDelete] \<and> CallDelete \<notin> set tr"
  proof (cases "wait_res e (n_wait w)")
    case (Inl werr)
    then show ?thesis
      using monitorTask_wait_failed [of e w werr sched]
      by (intro exI [of _ "[CallWait (Some werr)]"]) simp
  next
    case (Inr ch)
    then obtain ltr where ltr: "trace (snd (monitorTask e sched w)) =
        trace w @ CallWait None # GoStart # ltr
          @ (if fst (monitorTask e sched w) = None then [] else [CallDelete])"
      "CallDelete \<notin> set ltr"
      using monitorTask_trace [of e w ch sched] by blast
    then show ?thesis
      using res by (intro exI [of _ "CallWait None # GoStart # ltr"]) simp
  qed
next
  fix d
  show "fst (monitorTask (e\<lparr>delete_res := d\<rparr>) sched w) = fst (monitorTask e sched w)"
    by (simp add: fst_monitorTask split: sum.splits)
qed

theorem monitorTask_teardown_once_witness:
  "fst (monitorTask env_ok [SelStarted, SelWait] world0) = Some (137, None)
   \<and> (\<exists>tr. trace (snd (monitorTask env_ok [SelStarted, SelWait] world0))
          = trace world0 @ tr @ [CallDelete] \<and> CallDelete \<notin> set tr)
   \<and> fst (monitorTask (env_ok\<lparr>delete_res := Some task_gone\<rparr>) [SelStarted, SelWait] world0)
       = Some (137, None)"
proof -
  have r: "fst (monitorTask env_ok [SelStarted, SelWait] world0) = Some (137, None)"
    by (simp add: fst_monitorTask env_ok_def)
  note th = monitorTask_teardown_once [of env_ok "[SelStarted, SelWait]" world0]
  from th r have "\<exists>tr. trace (snd (monitorTask env_ok [SelStarted, SelWait] world0))
          = trace world0 @ tr @ [CallDelete] \<and> CallDelete \<notin> set tr"
    by blast
  moreover from th r
  have "fst (monitorTask (env_ok\<lparr>delete_res := Some task_gone\<rparr>) [SelStarted, SelWait] world0)
       = Some (137, None)"
    by simp
  ultimately show ?thesis using r by blast
qed

text \<open>
  Claim C4. In every run of \<open>monitorTask\<close> the health gate is cleared
  (\<open>DisableMaintainance\<close>) at most once. Whenever it is cleared, \<open>task.Start\<close> has
  returned \<open>nil\<close>, start was issued earlier in the run, and the action just before
  the clearing is the receipt of that \<open>nil\<close> from the \<open>started\<close> channel. An error of
  the clearing is logged right after it, and it changes nothing in the status and
  error that \<open>monitorTask\<close> returns.
\<close>

theorem monitorTask_gate_cleared_after_start:
  "(\<exists>tr. trace (snd (monitorTask e sched w)) = trace w @ tr
      \<and> count_list tr CallDisableMaintainance \<le> 1
      \<and> (\<forall>pre post. tr = pre @ CallDisableMaintainance # post \<longrightarrow>
            start_res e = None \<and> GoStart \<in> set pre \<and> pre \<noteq> [] \<and> last pre = RecvStarted None
            \<and> (\<forall>x. disable_res e = Some x \<longrightarrow>
                  (\<exists>post'. post = LogError ''disable service maintenance'' x # post'))))
   \<and> (\<forall>d. fst (monitorTask (e\<lparr>disable_res := d\<rparr>) sched w) = fst (monitorTask e sched w))"
proof (intro conjI allI)
  show "\<exists>tr. trace (snd (monitorTask e sched w)) = trace w @ tr
      \<and> count_list tr CallDisableMaintainance \<le> 1
      \<and> (\<forall>pre post. tr = pre @ CallDisableMaintainance # post \<longrightarrow>
            start_res e = None \<and> GoStart \<in> set pre \<and> pre \<noteq> [] \<and> last pre = RecvStarted None
            \<and> (\<forall>x. disable_res e = Some x \<longrightarrow>
                  (\<exists>post'. post = LogError ''disable service maintenance'' x # post')))"
  proof (cases "wait_res e (n_wait w)")
    case (Inl werr)
    have "CallDisableMaintainance \<notin> set [CallWait (Some werr), CallDelete]" by simp
    then have "\<forall>pre post. [CallWait (Some werr), CallDelete] \<noteq> pre @ CallDisableMaintainance # post"
      by (metis in_set_conv_decomp)
    then show ?thesis
      using monitorTask_wait_failed [OF Inl, of sched]
      by (intro exI [of _ "[CallWait (Some werr), CallDelete]"]) simp
  next
    case (Inr ch)
    define suffix where "suffix = (if fst (monitorTask e sched w) = None then [] else [CallDelete])"
    obtain ltr where ltr: "trace (snd (monitorTask e sched w)) =
        trace w @ CallWait None # GoStart # ltr @ suffix"
      "CallDisableMaintainance \<notin> set ltr \<or> start_res e = None \<and> cleared_once e ltr"
      using monitorTask_trace [OF Inr, of sched] unfolding suffix_def by blast
    let ?tr = "CallWait None # GoStart # ltr @ suffix"
    have suffix: "CallDisableMaintainance \<notin> set suffix" by (simp add: suffix_def)
    from ltr(2) show ?thesis
    proof
      assume "CallDisableMaintainance \<notin> set ltr"
      with suffix have no: "CallDisableMaintainance \<notin> set ?tr" by simp
      then have "\<forall>pre post. ?tr \<noteq> pre @ CallDisableMaintainance # post"
        by (metis in_set_conv_decomp)
      moreover from no have "count_list ?tr CallDisableMaintainance = 0" by (rule count_notin)
      ultimately show ?thesis using ltr(1) by (intro exI [of _ ?tr]) simp
    next
      assume c: "start_res e = None \<and> cleared_once e ltr"
      then obtain p q where pq: "ltr = p @ RecvStarted None # CallDisableMaintainance # q"
        "CallDisableMaintainance \<notin> set p" "CallDisableMaintainance \<notin> set q"
        "\<forall>x. disable_res e = Some x \<longrightarrow> (\<exists>post'. q = LogError ''disable service maintenance'' x # post')"
        unfolding cleared_once_def by blast
      let ?pre = "CallWait None # GoStart # p @ [RecvStarted None]"
      have tr: "?tr = ?pre @ CallDisableMaintainance # (q @ suffix)" using pq(1) by simp
      have np: "CallDisableMaintainance \<notin> set ?pre" using pq(2) by simp
      have nq: "CallDisableMaintainance \<notin> set (q @ suffix)" using pq(3) suffix by simp
      have cnt: "count_list ?tr CallDisableMaintainance = 1"
        using cleared_once_count [of e ltr] c suffix by (simp add: count_notin)
      have dec: "\<forall>pre post. ?tr = pre @ CallDisableMaintainance # post \<longrightarrow>
            start_res e = None \<and> GoStart \<in> set pre \<and> pre \<noteq> [] \<and> last pre = RecvStarted None
            \<and> (\<forall>x. disable_res e = Some x \<longrightarrow>
                  (\<exists>post'. post = LogError ''disable service maintenance'' x # post'))"
      proof (intro allI impI)
        fix pre post assume "?tr = pre @ CallDisableMaintainance # post"
        then have "?pre @ CallDisableMaintainance # (q @ suffix) = pre @ CallDisableMaintainance # post"
          using tr by simp
        then have e: "pre = ?pre \<and> post = q @ suffix"
          using append_Cons_eq_iff [OF np nq, of pre post] by blast
        have "\<forall>x. disable_res e = Some x \<longrightarrow>
                  (\<exists>post'. post = LogError ''disable service maintenance'' x # post')"
          using pq(4) e by auto
        then show "start_res e = None \<and> GoStart \<in> set pre \<and> pre \<noteq> [] \<and> last pre = RecvStarted None
            \<and> (\<forall>x. disable_res e = Some x \<longrightarrow>
                  (\<exists>post'. post = LogError ''disable service maintenance'' x # post'))"
          using c e by simp
      qed
      show ?thesis
        using ltr(1) cnt dec by (intro exI [of _ ?tr]) simp
    qed
  qed
next
  fix d
  show "fst (monitorTask (e\<lparr>disable_res := d\<rparr>) sched w) = fst (monitorTask e sched w)"
    by (simp add: fst_monitorTask split: sum.splits)
qed

theorem monitorTask_gate_cleared_after_start_witness:
  "trace (snd (monitorTask (env_ok\<lparr>disable_res := Some refused\<rparr>) [SelStarted, SelSignal 15, SelWait] world0))
     = [CallWait None, GoStart, RecvStarted None] @ CallDisableMaintainance
         # [LogError ''disable service maintenance'' refused, RecvSignal 15, CallKill 15, RecvWait,
            CallDelete]
   \<and> start_res (env_ok\<lparr>disable_res := Some refused\<rparr>) = None
   \<and> GoStart \<in> set [CallWait None, GoStart, RecvStarted None]
   \<and> last [CallWait None, GoStart, RecvStarted None] = RecvStarted None
   \<and> fst (monitorTask (env_ok\<lparr>disable_res := Some refused\<rparr>) [SelStarted, SelSignal 15, SelWait] world0)
       = fst (monitorTask env_ok [SelStarted, SelSignal 15, SelWait] world0)"
proof -
  let ?e = "env_ok\<lparr>disable_res := Some refused\<rparr>"
  let ?s = "[SelStarted, SelSignal 15, SelWait]"
  let ?pre = "[CallWait None, GoStart, RecvStarted None]"
  let ?post = "[LogError ''disable service maintenance'' refused, RecvSignal 15, CallKill 15, RecvWait,
            CallDelete]"
  have ev: "trace (snd (monitorTask ?e ?s world0)) = ?pre @ CallDisableMaintainance # ?post"
    by (simp add: monitorTask_def task_Wait_def task_Delete_def DisableMaintainance_def
        on_signal_eq trySendSignal_def trySendSignal_loop_unfold env_ok_def)
  note th = monitorTask_gate_cleared_after_start [of ?e ?s world0]
  from th obtain tr where tr: "trace (snd (monitorTask ?e ?s world0)) = trace world0 @ tr"
    "\<forall>pre post. tr = pre @ CallDisableMaintainance # post \<longrightarrow>
        start_res ?e = None \<and> GoStart \<in> set pre \<and> pre \<noteq> [] \<and> last pre = RecvStarted None
        \<and> (\<forall>x. disable_res ?e = Some x \<longrightarrow>
              (\<exists>post'. post = LogError ''disable service maintenance'' x # post'))"
    by blast
  from tr(1) ev have "tr = ?pre @ CallDisableMaintainance # ?post" by simp
  with tr(2) have "start_res ?e = None \<and> GoStart \<in> set ?pre \<and> last ?pre = RecvStarted None"
    by blast
  moreover from th
  have "fst (monitorTask (?e\<lparr>disable_res := None\<rparr>) ?s world0) = fst (monitorTask ?e ?s world0)"
    by blast
  moreover have "?e\<lparr>disable_res := None\<rparr> = env_ok" by (simp add: env_ok_def)
  ultimately show ?thesis using ev by simp
qed

text \<open>
  Claim C3. The connection drops once while the task runs: the wait event carries an
  unavailable status error, every reconnection would succeed, and a second
  subscription would deliver exit code 0. One subscription is live up to that event.
  At the event \<open>monitorTask\<close> returns \<open>(-1, nil)\<close>: it makes no reconnection and
  registers no new subscription, so from the event on it holds none, and the task it
  was to go on watching is torn down.
\<close>

theorem monitorTask_unavailable_wait_no_new_subscription:
  "monitorTask env_connection_lost [SelStarted, SelWait, SelWait] world0
   = (Some (- 1, None),
      world0\<lparr>n_wait := 1,
        trace := [CallWait None, GoStart, RecvStarted None, CallDisableMaintainance, RecvWait,
          CallDelete]\<rparr>)
   \<and> live [CallWait None, GoStart, RecvStarted None, CallDisableMaintainance] = 1
   \<and> live [CallWait None, GoStart, RecvStarted None, CallDisableMaintainance, RecvWait] = 0
   \<and> isUnavailable (Some unavailable)
   \<and> reconnect_res env_connection_lost 0 = None
   \<and> wait_res env_connection_lost 1 = Inr \<lparr>exit_code = 0, exit_error = None\<rparr>"
  by (simp add: monitorTask_def task_Wait_def task_Delete_def DisableMaintainance_def emit_def
      env_connection_lost_def env_ok_def world0_def live_def unavailable_def)

section \<open>Signal relay in the loop\<close>




section \<open>Side effects of the hooks\<close>

lemma register_all_trace:
  "trace (register_all e names w) = trace w @ registrations e (n_register w) names
   \<and> n_wait (register_all e names w) = n_wait w"
proof (induction names arbitrary: w)
  case Nil
  show ?case by simp
next
  case (Cons name names)
  show ?case
  proof (cases "register_res e (n_register w)")
    case None
    then show ?thesis
      using Cons.IH [of "emit (CallRegister name) (w\<lparr>n_register := n_register w + 1\<rparr>)"]
      by (simp add: Register_def)
  next
    case (Some rerr)
    then show ?thesis
      using Cons.IH [of "emit (LogError ''register service'' rerr)
        (emit (CallRegister name) (w\<lparr>n_register := n_register w + 1\<rparr>))"]
      by (simp add: Register_def)
  qed
qed

lemma setupNetworking_ok:
  "create_res e = Inr ip \<Longrightarrow>
   fst (setupNetworking e c w) = None
   \<and> n_wait (snd (setupNetworking e c w)) = n_wait w
   \<and> trace (snd (setupNetworking e c w)) =
       trace w @ CallCreate
         # (if ip \<noteq> [] then LogDebug ''setup network interface''
               # registrations e (n_register w) (Services c)
            else [])"
  by (simp add: setupNetworking_def register_all_trace)

lemma setupNetworking_failed:
  "create_res e = Inl cerr \<Longrightarrow> setupNetworking e c w = (Some cerr, emit CallCreate w)"
  by (simp add: setupNetworking_def)

lemma fst_systemdExecStart:
  "fst (systemdExecStart e sched ident) =
     (case load_res e of
        Some lerr \<Rightarrow> Returned (Some lerr)
      | None \<Rightarrow>
         (case info_res e of
            Some ierr \<Rightarrow> Returned (Some ierr)
          | None \<Rightarrow>
             (case unmarshal_res e of
                Inl uerr \<Rightarrow> Returned (Some uerr)
              | Inr config \<Rightarrow>
                 (case newtask_res e of
                    Some nerr \<Rightarrow> Returned (Some nerr)
                  | None \<Rightarrow>
                     (case create_res e of
                        Inl cerr \<Rightarrow> Returned (Some cerr)
                      | Inr ip \<Rightarrow>
                         (case wait_res e 0 of
                            Inl werr \<Rightarrow> Returned (Some werr)
                          | Inr ch \<Rightarrow>
                             (case loop_result sched (Some ch) (Some (start_res e)) of
                                None \<Rightarrow> Blocked
                              | Some (status, Some merr) \<Rightarrow> Returned (Some merr)
                              | Some (status, None) \<Rightarrow> Exited status)))))))"
proof (cases "load_res e")
  case (Some lerr)
  then show ?thesis by (simp add: systemdExecStart_def)
next
  case None
  note load = None
  show ?thesis
  proof (cases "info_res e")
    case (Some ierr)
    then show ?thesis using load by (simp add: systemdExecStart_def getConfig_def)
  next
    case None
    note info = None
    show ?thesis
    proof (cases "unmarshal_res e")
      case (Inl uerr)
      then show ?thesis using load info by (simp add: systemdExecStart_def getConfig_def)
    next
      case (Inr config)
      note cfg = Inr
      show ?thesis
      proof (cases "newtask_res e")
        case (Some nerr)
        then show ?thesis using load info cfg by (simp add: systemdExecStart_def getConfig_def)
      next
        case None
        note newtask = None
        let ?w1 = "emit CallNewTask (emit CallInfo (emit (CallLoadContainer ident) world0))"
        show ?thesis
        proof (cases "create_res e")
          case (Inl cerr)
          then show ?thesis
            using load info cfg newtask
            by (simp add: systemdExecStart_def getConfig_def setupNetworking_failed)
        next
          case (Inr ip)
          obtain w2 where s: "setupNetworking e config ?w1 = (None, w2)" "n_wait w2 = 0"
            using setupNetworking_ok [OF Inr, of config ?w1]
            by (cases "setupNetworking e config ?w1") simp
          have m: "fst (monitorTask e sched w2) =
            (case wait_res e 0 of
               Inl werr \<Rightarrow> Some (- 1, Some werr)
             | Inr ch \<Rightarrow> loop_result sched (Some ch) (Some (start_res e)))"
            by (simp add: fst_monitorTask s(2))
          have "systemdExecStart e sched ident =
            (case monitorTask e sched w2 of
               (None, w3) \<Rightarrow> (Blocked, w3)
             | (Some (status, Some merr), w3) \<Rightarrow> (Returned (Some merr), w3)
             | (Some (status, None), w3) \<Rightarrow> (Exited status, emit (OsExit status) w3))"
            by (simp add: systemdExecStart_def getConfig_def Let_def load info cfg newtask s(1))
          then have "fst (systemdExecStart e sched ident) =
            (case fst (monitorTask e sched w2) of
               None \<Rightarrow> Blocked
             | Some (status, Some merr) \<Rightarrow> Returned (Some merr)
             | Some (status, None) \<Rightarrow> Exited status)"
            by (cases "monitorTask e sched w2") (auto split: option.splits)
          then show ?thesis
            using load info cfg newtask Inr by (simp add: m split: sum.splits)
        qed
      qed
    qed
  qed
qed

text \<open>
  Claim C7, as the code has it. A failed service registration is logged, the other
  services are still registered, and what the start hook returns or exits with does
  not depend on the results of the registrations, nor on the result of
  \<open>DisableMaintainance\<close>. A failed network attachment is escalated:
  \<open>setupNetworking\<close> returns the error of \<open>Create\<close>, and the start hook then deletes
  the task and returns that error. In the post-start hook an error of
  \<open>EnableMaintainance\<close> is what the hook returns whenever the cleanup succeeded.
\<close>

theorem side_effect_errors:
  "(\<forall>r. fst (systemdExecStart (e\<lparr>register_res := r\<rparr>) sched ident)
         = fst (systemdExecStart e sched ident))
   \<and> (\<forall>d. fst (systemdExecStart (e\<lparr>disable_res := d\<rparr>) sched ident)
         = fst (systemdExecStart e sched ident))
   \<and> (\<forall>ip. create_res e = Inr ip \<longrightarrow>
          fst (setupNetworking e c w) = None
          \<and> trace (snd (setupNetworking e c w)) =
              trace w @ CallCreate
                # (if ip \<noteq> [] then LogDebug ''setup network interface''
                      # registrations e (n_register w) (Services c)
                   else []))
   \<and> (\<forall>cerr. create_res e = Inl cerr \<longrightarrow> setupNetworking e c w = (Some cerr, emit CallCreate w))
   \<and> (\<forall>cerr config. load_res e = None \<and> info_res e = None \<and> unmarshal_res e = Inr config
          \<and> newtask_res e = None \<and> create_res e = Inl cerr \<longrightarrow>
          systemdExecStart e sched ident =
            (Returned (Some cerr),
             world0\<lparr>trace := [CallLoadContainer ident, CallInfo, CallNewTask, CallCreate, CallDelete]\<rparr>))
   \<and> (fst (cleanupPreviousTask rt dw ident) = None \<longrightarrow>
          fst (systemdExecStartPost rt dw ident)
            = fst (EnableMaintainance rt (snd (cleanupPreviousTask rt dw ident)) ident ''task exited''))"
proof (intro conjI allI impI)
  fix r
  show "fst (systemdExecStart (e\<lparr>register_res := r\<rparr>) sched ident) = fst (systemdExecStart e sched ident)"
    by (simp add: fst_systemdExecStart split: option.splits sum.splits)
next
  fix d
  show "fst (systemdExecStart (e\<lparr>disable_res := d\<rparr>) sched ident) = fst (systemdExecStart e sched ident)"
    by (simp add: fst_systemdExecStart split: option.splits sum.splits)
next
  fix ip assume "create_res e = Inr ip"
  then show "fst (setupNetworking e c w) = None"
    and "trace (snd (setupNetworking e c w)) =
              trace w @ CallCreate
                # (if ip \<noteq> [] then LogDebug ''setup network interface''
                      # registrations e (n_register w) (Services c)
                   else [])"
    using setupNetworking_ok [of e ip c w] by simp_all
next
  fix cerr assume "create_res e = Inl cerr"
  then show "setupNetworking e c w = (Some cerr, emit CallCreate w)"
    by (rule setupNetworking_failed)
next
  fix cerr config
  assume "load_res e = None \<and> info_res e = None \<and> unmarshal_res e = Inr config
          \<and> newtask_res e = None \<and> create_res e = Inl cerr"
  then show "systemdExecStart e sched ident =
            (Returned (Some cerr),
             world0\<lparr>trace := [CallLoadContainer ident, CallInfo, CallNewTask, CallCreate, CallDelete]\<rparr>)"
    by (simp add: systemdExecStart_def getConfig_def setupNetworking_failed task_Delete_def
        emit_def world0_def)
next
  assume "fst (cleanupPreviousTask rt dw ident) = None"
  then show "fst (systemdExecStartPost rt dw ident)
            = fst (EnableMaintainance rt (snd (cleanupPreviousTask rt dw ident)) ident ''task exited'')"
    by (auto simp add: systemdExecStartPost_def split: prod.splits)
qed

theorem side_effect_errors_counterexample:
  "systemdExecStart env_create_fails [SelStarted, SelWait] ''web-1''
     = (Returned (Some refused),
        world0\<lparr>trace := [CallLoadContainer ''web-1'', CallInfo, CallNewTask, CallCreate, CallDelete]\<rparr>)
   \<and> systemdExecStartPost (rt_demo (Some refused)) daemon0 ''web-1''
     = (Some refused, daemon0\<lparr>maintenance := [''web-1'']\<rparr>)"
  by (simp add: systemdExecStart_def getConfig_def setupNetworking_def task_Delete_def emit_def
      env_create_fails_def env_ok_def world0_def systemdExecStartPost_def cleanupPreviousTask_def
      rt_demo_def daemon0_def task_gone_def)

theorem side_effect_errors_witness:
  "fst (systemdExecStart env_register_fails [SelStarted, SelWait] ''web-1'')
     = fst (systemdExecStart env_ok [SelStarted, SelWait] ''web-1'')
   \<and> fst (systemdExecStart env_ok [SelStarted, SelWait] ''web-1'') = Exited 137
   \<and> fst (setupNetworking env_register_fails \<lparr>Network = ''cni'', Services = [''http'', ''metrics'']\<rparr> world0)
       = None
   \<and> trace (snd (setupNetworking env_register_fails
         \<lparr>Network = ''cni'', Services = [''http'', ''metrics'']\<rparr> world0))
       = [CallCreate, LogDebug ''setup network interface'',
          CallRegister ''http'', LogError ''register service'' refused,
          CallRegister ''metrics'', LogError ''register service'' refused]
   \<and> setupNetworking env_create_fails \<lparr>Network = ''cni'', Services = [''http'']\<rparr> world0
       = (Some refused, emit CallCreate world0)
   \<and> systemdExecStart env_create_fails [SelStarted, SelWait] ''web-1''
       = (Returned (Some refused),
          world0\<lparr>trace := [CallLoadContainer ''web-1'', CallInfo, CallNewTask, CallCreate, CallDelete]\<rparr>)
   \<and> fst (systemdExecStartPost (rt_demo (Some refused)) daemon0 ''web-1'') = Some refused"
proof -
  let ?s = "[SelStarted, SelWait]"
  let ?c = "\<lparr>Network = ''cni'', Services = [''http'', ''metrics'']\<rparr>"
  let ?c1 = "\<lparr>Network = ''cni'', Services = [''http'']\<rparr>"
  note reg = side_effect_errors [of env_register_fails ?s "''web-1''" ?c world0 "rt_demo (Some refused)"
      daemon0]
  note cre = side_effect_errors [of env_create_fails ?s "''web-1''" ?c1 world0 "rt_demo (Some refused)"
      daemon0]
  have same_env: "env_register_fails\<lparr>register_res := register_res env_ok\<rparr> = env_ok"
    by (simp add: env_register_fails_def env_ok_def)
  from reg have "fst (systemdExecStart (env_register_fails\<lparr>register_res := register_res env_ok\<rparr>) ?s ''web-1'')
      = fst (systemdExecStart env_register_fails ?s ''web-1'')"
    by blast
  then have a: "fst (systemdExecStart env_register_fails ?s ''web-1'')
      = fst (systemdExecStart env_ok ?s ''web-1'')"
    by (simp add: same_env)
  have b: "fst (systemdExecStart env_ok ?s ''web-1'') = Exited 137"
    by (simp add: fst_systemdExecStart env_ok_def)
  have ip: "create_res env_register_fails = Inr ''10.0.0.5''"
    by (simp add: env_register_fails_def env_ok_def)
  from reg ip have "fst (setupNetworking env_register_fails ?c world0) = None
      \<and> trace (snd (setupNetworking env_register_fails ?c world0)) =
          trace world0 @ CallCreate
            # (if ''10.0.0.5'' \<noteq> [] then LogDebug ''setup network interface''
                  # registrations env_register_fails (n_register world0) (Services ?c)
               else [])"
    by blast
  then have c: "fst (setupNetworking env_register_fails ?c world0) = None
      \<and> trace (snd (setupNetworking env_register_fails ?c world0))
       = [CallCreate, LogDebug ''setup network interface'',
          CallRegister ''http'', LogError ''register service'' refused,
          CallRegister ''metrics'', LogError ''register service'' refused]"
    by (simp add: env_register_fails_def)
  have fails: "load_res env_create_fails = None \<and> info_res env_create_fails = None
      \<and> unmarshal_res env_create_fails = Inr ?c1
      \<and> newtask_res env_create_fails = None \<and> create_res env_create_fails = Inl refused"
    by (simp add: env_create_fails_def env_ok_def)
  from cre fails have d: "setupNetworking env_create_fails ?c1 world0 = (Some refused, emit CallCreate world0)"
    by blast
  from cre fails have e: "systemdExecStart env_create_fails ?s ''web-1''
       = (Returned (Some refused),
          world0\<lparr>trace := [CallLoadContainer ''web-1'', CallInfo, CallNewTask, CallCreate, CallDelete]\<rparr>)"
    by blast
  have ok: "fst (cleanupPreviousTask (rt_demo (Some refused)) daemon0 ''web-1'') = None"
    by (simp add: cleanupPreviousTask_def rt_demo_def daemon0_def task_gone_def)
  with cre have "fst (systemdExecStartPost (rt_demo (Some refused)) daemon0 ''web-1'')
      = fst (EnableMaintainance (rt_demo (Some refused))
          (snd (cleanupPreviousTask (rt_demo (Some refused)) daemon0 ''web-1'')) ''web-1'' ''task exited'')"
    by blast
  then have f: "fst (systemdExecStartPost (rt_demo (Some refused)) daemon0 ''web-1'') = Some refused"
    by (simp add: rt_demo_def)
  from a b c d e f show ?thesis by blast
qed

end
